theory Spec2Isabelle
  imports Main "HOL-Library.Sublist"
begin

section \<open>Package greet\<close>

text \<open>
  Go strings are immutable byte sequences and \<open>len\<close> counts bytes; they are modelled as
  \<^typ>\<open>string\<close>, a list of 8-bit characters. The operator \<open>+\<close> on Go strings is
  concatenation, \<open>@\<close> here.

  \<^verbatim>\<open>
  func Hello(name string) string {
      return "Hello, " + name + "!"
  }
  \<close>
\<close>

definition Hello :: "string \<Rightarrow> string" where
  "Hello name = ''Hello, '' @ name @ ''!''"

subsection \<open>The test table of TestHello\<close>

text \<open>
  \<open>TestHello\<close> runs \<open>Hello\<close> on every row of its table and reports a row through
  \<open>t.Errorf\<close> when the result differs from the expected text. The model returns the
  rows that are reported, as triples of input, result and expectation.
\<close>

definition tests :: "(string \<times> string) list" where
  "tests = [(''World'', ''Hello, World!''), (''Go'', ''Hello, Go!''), ('''', ''Hello, !'')]"

fun TestHello_loop :: "(string \<times> string) list \<Rightarrow> (string \<times> string \<times> string) list" where
  "TestHello_loop [] = []"
| "TestHello_loop ((name, want) # tts) =
     (let got = Hello name
      in if got \<noteq> want then (name, got, want) # TestHello_loop tts
         else TestHello_loop tts)"

definition TestHello :: "(string \<times> string \<times> string) list" where
  "TestHello = TestHello_loop tests"

subsection \<open>A call of Hello as a computation\<close>

text \<open>
  A Go call does not only return a value: it can panic, it can wait for ever (on a channel
  or a lock), and it can read and write the state of the program (package-level variables,
  the heap, the output streams). To say that \<open>Hello\<close> does none of this, a call is
  modelled as a computation over an arbitrary program state \<open>'w\<close>: it takes the state and
  gives an outcome and the state it leaves behind.
\<close>

datatype 'a outcome = Returns 'a | Panics string | Blocks

type_synonym ('a, 'w) go = "'w \<Rightarrow> 'a outcome \<times> 'w"

definition go_return :: "'a \<Rightarrow> ('a, 'w) go" where
  "go_return x w = (Returns x, w)"

text \<open>
  Sequencing: the second computation runs on the value and the state of the first; a panic
  or a wait of the first is the outcome of the whole.
\<close>

definition go_bind :: "('a, 'w) go \<Rightarrow> ('a \<Rightarrow> ('b, 'w) go) \<Rightarrow> ('b, 'w) go" where
  "go_bind c k w =
     (case c w of
        (Returns x, w') \<Rightarrow> k x w'
      | (Panics m, w') \<Rightarrow> (Panics m, w')
      | (Blocks, w') \<Rightarrow> (Blocks, w'))"

text \<open>
  The operations a function body can be made of. The operator \<open>+\<close> on two strings returns
  their concatenation; the language gives it no failing case and no effect (running out of
  memory is outside the model). The others are those that can panic (\<open>s[i]\<close> out of
  range), wait (a receive on a channel that nobody sends on), depend on the state (reading
  a variable) or change it (assigning to one).
\<close>

definition string_add :: "string \<Rightarrow> string \<Rightarrow> (string, 'w) go" where
  "string_add a b = go_return (a @ b)"

definition string_index :: "string \<Rightarrow> int \<Rightarrow> (char, 'w) go" where
  "string_index s i w =
     (if 0 \<le> i \<and> i < int (length s) then (Returns (s ! nat i), w)
      else (Panics ''index out of range'', w))"

definition chan_receive_nil :: "('a, 'w) go" where
  "chan_receive_nil w = (Blocks, w)"

definition var_load :: "('w \<Rightarrow> 'a) \<Rightarrow> ('a, 'w) go" where
  "var_load var w = (Returns (var w), w)"

definition var_store :: "('w \<Rightarrow> 'w) \<Rightarrow> (unit, 'w) go" where
  "var_store assign w = (Returns (), assign w)"

text \<open>
  The body of \<open>Hello\<close> is \<open>return "Hello, " + name + "!"\<close>: the two literals and the
  parameter are values, and \<open>+\<close> associates to the left, so the call is two string
  additions in sequence and nothing else.
\<close>

definition Hello_call :: "string \<Rightarrow> (string, 'w) go" where
  "Hello_call name =
     go_bind (string_add ''Hello, '' name) (\<lambda>t.
     go_bind (string_add t ''!'') go_return)"

subsection \<open>The benchmark loop\<close>

text \<open>
  \<^verbatim>\<open>
  for i := 0; i < b.N; i++ {
      Hello("Benchmark")
  }
  \<close>
  \<open>Hello_loop\<close> is this loop with the argument of the call as a parameter. The loop
  discards each result; the model collects them, in order, so that the iterations can be
  compared. A call that panics or waits ends the loop with that outcome.
\<close>

function Hello_loop ::
  "string \<Rightarrow> int \<Rightarrow> int \<Rightarrow> string list \<Rightarrow> (string list, 'w) go" where
  "Hello_loop name i N returned w =
     (if i < N
      then (case Hello_call name w of
              (Returns r, w') \<Rightarrow> Hello_loop name (i + 1) N (returned @ [r]) w'
            | (Panics m, w') \<Rightarrow> (Panics m, w')
            | (Blocks, w') \<Rightarrow> (Blocks, w'))
      else (Returns returned, w))"
  by pat_completeness auto
termination
  by (relation "measure (\<lambda>(name, i, N, returned, w). nat (N - i))") auto

declare Hello_loop.simps [simp del]

definition BenchmarkHello :: "int \<Rightarrow> (string list, 'w) go" where
  "BenchmarkHello N = Hello_loop ''Benchmark'' 0 N []"

section \<open>The command-line flags of package main\<close>

text \<open>
  \<open>main\<close> registers one flag with \<open>flag.Bool("version", false, "show version")\<close> and
  calls \<open>flag.Parse()\<close>. Both belong to the package \<open>flag\<close> of the Go standard library,
  which the repository imports; what follows transcribes the part of that package the two
  calls run (\<open>FlagSet.Bool\<close>, \<open>FlagSet.parseOne\<close>, \<open>FlagSet.Parse\<close> for the
  \<open>CommandLine\<close> flag set, whose error handling is \<open>ExitOnError\<close>, and
  \<open>strconv.ParseBool\<close>), in the behaviour of Go 1.15 and later, where a request for
  help leaves the process with status 0.

  The wording of what the package writes to its output (standard error) is not modelled:
  each message is a value of \<open>diag\<close>, named after the format string that produces it,
  and \<open>Usage\<close> stands for the usage text (\<open>Usage of <program>:\<close> followed by the
  flag defaults).
\<close>

datatype diag =
    BadFlagSyntax string
  | FlagNotDefined string
  | InvalidBooleanValue string string
  | Usage

datatype flag_error = ErrHelp | ErrFail diag

text \<open>
  A flag set: the arguments still to be read, the defined flags (name to usage text), the
  flags that were set, the \<open>bool\<close> variable behind each flag (the pointer that
  \<open>flag.Bool\<close> returns is the flag's name here) and what was written to the output.
  Every flag of this program is a boolean flag, so a flag's value is a \<open>bool\<close>.
\<close>

record FlagSet =
  args :: "string list"
  formal :: "string \<rightharpoonup> string"
  actual :: "string set"
  boolVar :: "string \<Rightarrow> bool"
  flag_output :: "diag list"

definition CommandLine :: FlagSet where
  "CommandLine = \<lparr>args = [], formal = Map.empty, actual = {}, boolVar = (\<lambda>_. False), flag_output = []\<rparr>"

definition Bool_flag :: "FlagSet \<Rightarrow> string \<Rightarrow> bool \<Rightarrow> string \<Rightarrow> FlagSet" where
  "Bool_flag f name val usage_text =
     f\<lparr>formal := (formal f)(name \<mapsto> usage_text), boolVar := (boolVar f)(name := val)\<rparr>"

text \<open>\<open>strconv.ParseBool\<close>: twelve spellings are accepted, anything else is an error.\<close>

definition ParseBool :: "string \<Rightarrow> bool option" where
  "ParseBool str =
     (if str \<in> set [''1'', ''t'', ''T'', ''TRUE'', ''true'', ''True''] then Some True
      else if str \<in> set [''0'', ''f'', ''F'', ''FALSE'', ''false'', ''False''] then Some False
      else None)"

text \<open>\<open>failf\<close> writes the message and the usage text, and returns the error.\<close>

definition failf :: "FlagSet \<Rightarrow> diag \<Rightarrow> (bool \<times> flag_error option) \<times> FlagSet" where
  "failf f msg = ((False, Some (ErrFail msg)), f\<lparr>flag_output := flag_output f @ [msg, Usage]\<rparr>)"

definition usage :: "FlagSet \<Rightarrow> FlagSet" where
  "usage f = f\<lparr>flag_output := flag_output f @ [Usage]\<rparr>"

text \<open>
  \<^verbatim>\<open>
  for i := 1; i < len(name); i++ { // equals cannot be first
      if name[i] == '=' { ... break }
  }
  \<close>
  \<open>eqIndex name i\<close> is the index at which the loop, started at \<open>i\<close>, breaks.
\<close>

function eqIndex :: "string \<Rightarrow> nat \<Rightarrow> nat option" where
  "eqIndex name i =
     (if i < length name
      then (if name ! i = CHR ''='' then Some i else eqIndex name (i + 1))
      else None)"
  by pat_completeness auto
termination
  by (relation "measure (\<lambda>(name, i). length name - i)") auto

declare eqIndex.simps [simp del]

text \<open>
  \<open>parseOne\<close> reads one flag. It returns whether a flag was seen and the error, if any.
  An argument shorter than two bytes or not starting with \<open>-\<close> ends the flags and is
  left in place; \<open>--\<close> ends them and is removed. The branch of the package for flags
  that take a separate value is absent: no flag of this program is of that kind.
\<close>

definition parseOne :: "FlagSet \<Rightarrow> (bool \<times> flag_error option) \<times> FlagSet" where
  "parseOne f =
     (case args f of
        [] \<Rightarrow> ((False, None), f)
      | s # rest \<Rightarrow>
          if length s < 2 \<or> s ! 0 \<noteq> CHR ''-'' then ((False, None), f)
          else if s ! 1 = CHR ''-'' \<and> length s = 2 then ((False, None), f\<lparr>args := rest\<rparr>)
          else
            let numMinuses = (if s ! 1 = CHR ''-'' then 2 else 1);
                name = drop numMinuses s
            in if length name = 0 \<or> name ! 0 = CHR ''-'' \<or> name ! 0 = CHR ''=''
               then failf f (BadFlagSyntax s)
               else
                 let f1 = f\<lparr>args := rest\<rparr>;
                     split = eqIndex name 1;
                     hasValue = (split \<noteq> None);
                     val = (case split of None \<Rightarrow> [] | Some i \<Rightarrow> drop (i + 1) name);
                     name1 = (case split of None \<Rightarrow> name | Some i \<Rightarrow> take i name)
                 in (case formal f1 name1 of
                       None \<Rightarrow>
                         if name1 = ''help'' \<or> name1 = ''h''
                         then ((False, Some ErrHelp), usage f1)
                         else failf f1 (FlagNotDefined name1)
                     | Some _ \<Rightarrow>
                         if hasValue
                         then (case ParseBool val of
                                 None \<Rightarrow> failf f1 (InvalidBooleanValue val name1)
                               | Some b \<Rightarrow>
                                   ((True, None),
                                    f1\<lparr>boolVar := (boolVar f1)(name1 := b),
                                       actual := insert name1 (actual f1)\<rparr>))
                         else ((True, None),
                               f1\<lparr>boolVar := (boolVar f1)(name1 := True),
                                  actual := insert name1 (actual f1)\<rparr>)))"

lemma parseOne_seen_shorter:
  assumes "parseOne f = ((True, e), f')"
  shows "length (args f') < length (args f)"
proof (cases "args f")
  case Nil
  with assms show ?thesis by (simp add: parseOne_def)
next
  case (Cons s rest)
  have "args f' = rest"
    using assms Cons
    by (auto simp: parseOne_def failf_def usage_def Let_def
             split: if_splits option.splits)
  with Cons show ?thesis by simp
qed

text \<open>
  \<open>Parse\<close> stores the arguments and calls \<open>parseOne\<close> until no flag is seen. With
  \<open>ExitOnError\<close> an error ends the process: \<open>os.Exit(0)\<close> for \<open>ErrHelp\<close>,
  \<open>os.Exit(2)\<close> for any other error. \<open>Inl\<close> carries the exit status, \<open>Inr\<close> is the
  normal return.
\<close>

function parseLoop :: "FlagSet \<Rightarrow> (nat \<times> FlagSet) + FlagSet" where
  "parseLoop f =
     (case parseOne f of
        ((True, _), f') \<Rightarrow> parseLoop f'
      | ((False, None), f') \<Rightarrow> Inr f'
      | ((False, Some ErrHelp), f') \<Rightarrow> Inl (0, f')
      | ((False, Some (ErrFail _)), f') \<Rightarrow> Inl (2, f'))"
  by pat_completeness auto
termination
  by (relation "measure (\<lambda>f. length (args f))") (auto dest: parseOne_seen_shorter [OF sym])

declare parseLoop.simps [simp del]

definition Parse :: "FlagSet \<Rightarrow> string list \<Rightarrow> (nat \<times> FlagSet) + FlagSet" where
  "Parse f arguments = parseLoop (f\<lparr>args := arguments\<rparr>)"

section \<open>Package main\<close>

text \<open>
  \<^verbatim>\<open>var version = "dev"\<close>
  The variable keeps its initial value unless the build replaces it (the linker's
  \<open>-X main.version=...\<close>); \<open>injected\<close> is the value the build supplies, if any.
\<close>

definition version :: "string option \<Rightarrow> string" where
  "version injected = (case injected of None \<Rightarrow> ''dev'' | Some v \<Rightarrow> v)"

text \<open>\<open>fmt.Println\<close> of one string writes the string and a newline.\<close>

definition Println :: "string \<Rightarrow> string" where
  "Println s = s @ [CHR 0x0A]"

text \<open>
  A run of the program, as seen from outside: the bytes on standard output, the messages
  on standard error, the arguments of the calls of \<open>greet.Hello\<close> in order, and the exit
  status (0 when \<open>main\<close> returns).
\<close>

record Process =
  stdout :: string
  stderr :: "diag list"
  hello_calls :: "string list"
  exit_status :: nat

text \<open>
  \<^verbatim>\<open>
  func main() {
      showVersion := flag.Bool("version", false, "show version")
      flag.Parse()
      if *showVersion {
          fmt.Println(version)
          return
      }
      fmt.Println(greet.Hello("World"))
  }
  \<close>
  \<open>arguments\<close> is \<open>os.Args[1:]\<close>, the command line after the program name.
\<close>

definition main :: "string option \<Rightarrow> string list \<Rightarrow> Process" where
  "main injected arguments =
     (let f0 = Bool_flag CommandLine ''version'' False ''show version''
      in case Parse f0 arguments of
           Inl (code, f) \<Rightarrow>
             \<lparr>stdout = [], stderr = flag_output f, hello_calls = [], exit_status = code\<rparr>
         | Inr f \<Rightarrow>
             if boolVar f ''version''
             then \<lparr>stdout = Println (version injected), stderr = flag_output f,
                   hello_calls = [], exit_status = 0\<rparr>
             else \<lparr>stdout = Println (Hello ''World''), stderr = flag_output f,
                   hello_calls = [''World''], exit_status = 0\<rparr>)"

section \<open>What one argument means to the entry point\<close>

text \<open>
  The specification speaks of the version switch, of unrecognized and malformed flags and
  of arguments that are not flags. These notions are written down here argument by
  argument, independently of the parsing loop above, and the properties of the entry point
  are stated with them.

  An argument is a flag when it has at least two bytes and starts with \<open>-\<close>; \<open>--\<close> alone
  ends the flags. A flag is one or two dashes, a name, and optionally \<open>=\<close> and a value.
\<close>

definition flag_body :: "string \<Rightarrow> string" where
  "flag_body s = (if take 2 s = ''--'' then drop 2 s else drop 1 s)"

definition flag_name :: "string \<Rightarrow> string" where
  "flag_name s = takeWhile (\<lambda>c. c \<noteq> CHR ''='') (flag_body s)"

definition flag_value :: "string \<Rightarrow> string option" where
  "flag_value s =
     (case dropWhile (\<lambda>c. c \<noteq> CHR ''='') (flag_body s) of
        [] \<Rightarrow> None
      | _ # v \<Rightarrow> Some v)"

datatype arg_kind =
    NonFlag
  | Terminator
  | SetVersion bool
  | Help
  | Rejected diag

definition classify :: "string \<Rightarrow> arg_kind" where
  "classify s =
     (if length s < 2 \<or> take 1 s \<noteq> ''-'' then NonFlag
      else if s = ''--'' then Terminator
      else if take 1 (flag_body s) = ''-'' \<or> take 1 (flag_body s) = ''=''
      then Rejected (BadFlagSyntax s)
      else if flag_name s = ''version''
      then (case flag_value s of
              None \<Rightarrow> SetVersion True
            | Some v \<Rightarrow>
                (case ParseBool v of
                   Some b \<Rightarrow> SetVersion b
                 | None \<Rightarrow> Rejected (InvalidBooleanValue v ''version'')))
      else if flag_name s = ''help'' \<or> flag_name s = ''h'' then Help
      else Rejected (FlagNotDefined (flag_name s)))"

text \<open>
  Reading a command line from the left: well-formed version flags are taken one after the
  other, the last one deciding the switch; the first argument of another kind ends the
  reading, with success for an argument that is not a flag and for \<open>--\<close>, with the
  usage text for a request for help, and with a rejection otherwise. What follows that
  argument is not looked at.
\<close>

datatype reading = Accepted bool | HelpRequested | Refused diag

fun read_args :: "bool \<Rightarrow> string list \<Rightarrow> reading" where
  "read_args b [] = Accepted b"
| "read_args b (s # rest) =
     (case classify s of
        NonFlag \<Rightarrow> Accepted b
      | Terminator \<Rightarrow> Accepted b
      | SetVersion v \<Rightarrow> read_args v rest
      | Help \<Rightarrow> HelpRequested
      | Rejected d \<Rightarrow> Refused d)"

text \<open>A well-formed version flag: \<open>-version\<close> or \<open>--version\<close>, alone or with a boolean value.\<close>

definition is_version_flag :: "string \<Rightarrow> bool" where
  "is_version_flag s = (case classify s of SetVersion _ \<Rightarrow> True | _ \<Rightarrow> False)"

section \<open>Properties of the greeting function\<close>

lemma TestHello_loop_tests: "TestHello_loop tests = []"
  by (simp add: tests_def Hello_def)

text \<open>
  C1. For every input string \<open>n\<close>, the empty string and strings of arbitrary characters
  included, \<open>Hello n\<close> is exactly the concatenation of \<open>"Hello, "\<close>, \<open>n\<close> and \<open>"!"\<close>;
  in particular the three rows of the test table hold, so \<open>TestHello\<close> reports nothing.
\<close>

theorem Hello_concat:
  "Hello n = ''Hello, '' @ n @ ''!''
   \<and> Hello ''World'' = ''Hello, World!''
   \<and> Hello ''Go'' = ''Hello, Go!''
   \<and> Hello '''' = ''Hello, !''
   \<and> TestHello = []"
  by (simp add: Hello_def TestHello_def TestHello_loop_tests)

theorem Hello_concat_witness:
  "Hello [CHR 0x00, CHR 0xFF, CHR ''='', CHR 0x0A]
     = ''Hello, '' @ [CHR 0x00, CHR 0xFF, CHR ''='', CHR 0x0A] @ ''!''"
  using Hello_concat [of "[CHR 0x00, CHR 0xFF, CHR ''='', CHR 0x0A]"] by simp

subsection \<open>What a call of Hello does and does not do\<close>

text \<open>
  The computations differ in the four respects: indexing out of range panics, a receive on
  a nil channel waits, a load gives what the state holds, a store changes the state. So
  none of the properties below holds of every computation.
\<close>

lemma computations_differ:
  "fst (string_index ''abc'' 3 w) = Panics ''index out of range''"
  "fst (chan_receive_nil w) = Blocks"
  "fst (var_load id (0::nat)) \<noteq> fst (var_load id (1::nat))"
  "snd (var_store Suc (0::nat)) \<noteq> 0"
  by (simp_all add: string_index_def chan_receive_nil_def var_load_def var_store_def)

text \<open>
  The call, computed: in every state it returns the concatenation and leaves the state as
  it found it.
\<close>

lemma Hello_call_eq: "Hello_call name w = (Returns (''Hello, '' @ name @ ''!''), w)"
  by (simp add: Hello_call_def go_bind_def string_add_def go_return_def)

text \<open>
  C5. \<open>Hello\<close> is total: for every input string and in every program state the call
  returns a result, the one the function \<open>Hello\<close> gives; it does not panic and it does not
  wait. There is no error outcome.
\<close>

theorem Hello_total:
  "fst (Hello_call n w) = Returns (Hello n)
   \<and> fst (Hello_call n w) \<noteq> Blocks
   \<and> (\<forall>m. fst (Hello_call n w) \<noteq> Panics m)"
  by (simp add: Hello_call_eq Hello_def)

theorem Hello_total_witness:
  "fst (Hello_call '''' (0::nat)) = Returns ''Hello, !''
   \<and> fst (Hello_call '''' (0::nat)) \<noteq> Blocks
   \<and> (\<forall>m. fst (Hello_call '''' (0::nat)) \<noteq> Panics m)"
  using Hello_total [of "''''" "0::nat"] by (simp add: Hello_def)

text \<open>
  C6. \<open>Hello\<close> is deterministic: two calls with equal inputs have equal outcomes, whatever
  the program states \<open>w\<close> and \<open>w'\<close> in which they are made. No state influences the
  result.
\<close>

theorem Hello_deterministic:
  "n = m \<Longrightarrow> fst (Hello_call n w) = fst (Hello_call m w')"
  by (simp add: Hello_call_eq)

theorem Hello_deterministic_witness:
  "fst (Hello_call ''Go'' (0::nat)) = fst (Hello_call ''Go'' (1::nat))"
  using Hello_deterministic [of "''Go''" "''Go''" "0::nat" "1::nat"] by simp

text \<open>
  The loop started at \<open>i\<close> adds one result per remaining iteration and returns the state
  unchanged.
\<close>

lemma Hello_loop_eq:
  "Hello_loop name i N returned w =
     (Returns (returned @ replicate (nat (N - i)) (Hello name)), w)"
proof (induction name i N returned w rule: Hello_loop.induct)
  case (1 name i N returned w)
  have c: "Hello_call name w = (Returns (Hello name), w)"
    by (simp add: Hello_call_eq Hello_def)
  show ?case
  proof (cases "i < N")
    case True
    then have n: "nat (N - i) = Suc (nat (N - (i + 1)))" by simp
    have "Hello_loop name i N returned w =
            Hello_loop name (i + 1) N (returned @ [Hello name]) w"
      using True by (subst Hello_loop.simps) (simp add: c)
    also have "\<dots> = (Returns ((returned @ [Hello name])
                         @ replicate (nat (N - (i + 1))) (Hello name)), w)"
      by (rule "1.IH" [OF True c [symmetric] refl])
    finally show ?thesis by (simp add: n)
  next
    case False
    then show ?thesis by (subst Hello_loop.simps) simp
  qed
qed

text \<open>
  C7. Calling \<open>Hello\<close> repeatedly with a fixed input \<open>name\<close>, as the benchmark loop does
  with \<open>"Benchmark"\<close>, leaves the program state as it was after any number of iterations,
  and every iteration returns the value the first one returned: \<open>N\<close> iterations return
  \<open>N\<close> copies of \<open>Hello name\<close>.
\<close>

theorem Hello_loop_no_effect:
  "Hello_loop name 0 N [] w = (Returns (replicate (nat N) (Hello name)), w)
   \<and> BenchmarkHello N w = (Returns (replicate (nat N) (Hello ''Benchmark'')), w)"
  by (simp add: BenchmarkHello_def Hello_loop_eq)

theorem Hello_loop_no_effect_witness:
  "Hello_loop ''Go'' 0 2 [] (''state'', 7::nat) =
     (Returns [''Hello, Go!'', ''Hello, Go!''], (''state'', 7))
   \<and> BenchmarkHello 3 (''state'', 7::nat) =
     (Returns [''Hello, Benchmark!'', ''Hello, Benchmark!'', ''Hello, Benchmark!''],
      (''state'', 7))"
proof -
  have "replicate (nat 3) (Hello ''Benchmark'') =
          [''Hello, Benchmark!'', ''Hello, Benchmark!'', ''Hello, Benchmark!'']"
    and "replicate (nat 2) (Hello ''Go'') = [''Hello, Go!'', ''Hello, Go!'']"
    by (simp_all add: numeral_3_eq_3 numeral_2_eq_2 Hello_def)
  then show ?thesis
    using Hello_loop_no_effect [of "''Go''" 2 "(''state'', 7::nat)"]
          Hello_loop_no_effect [of _ 3 "(''state'', 7::nat)"]
    by simp
qed

text \<open>
  C10. For every input \<open>n\<close>, \<open>Hello n\<close> has length 8 plus the length of \<open>n\<close>, starts
  with \<open>"Hello, "\<close> and ends with \<open>"!"\<close>; in particular it is never empty.
\<close>

theorem Hello_shape:
  "length (Hello n) = 8 + length n
   \<and> prefix ''Hello, '' (Hello n)
   \<and> suffix ''!'' (Hello n)
   \<and> Hello n \<noteq> []"
  by (simp add: Hello_def suffix_def)

theorem Hello_shape_witness:
  "length (Hello []) = 8 \<and> prefix ''Hello, '' (Hello []) \<and> suffix ''!'' (Hello [])
   \<and> Hello [] \<noteq> []"
  using Hello_shape [of "[]"] by simp

section \<open>The parsing loop agrees with the reading of the arguments\<close>

subsection \<open>The search for the equals sign\<close>

lemma eqIndex_takeWhile:
  "i \<le> length name \<Longrightarrow>
   eqIndex name i =
     (if CHR ''='' \<in> set (drop i name)
      then Some (i + length (takeWhile (\<lambda>c. c \<noteq> CHR ''='') (drop i name)))
      else None)"
proof (induction name i rule: eqIndex.induct)
  case (1 name i)
  show ?case
  proof (cases "i < length name")
    case False
    then show ?thesis by (simp add: eqIndex.simps)
  next
    case True
    then have d: "drop i name = name ! i # drop (Suc i) name"
      by (simp add: Cons_nth_drop_Suc)
    show ?thesis
    proof (cases "name ! i = CHR ''=''")
      case eq: True
      with True d show ?thesis by (subst eqIndex.simps) simp
    next
      case ne: False
      have "eqIndex name i = eqIndex name (i + 1)"
        using True ne by (subst eqIndex.simps) simp
      also have "\<dots> = (if CHR ''='' \<in> set (drop (i + 1) name)
                        then Some (i + 1 + length (takeWhile (\<lambda>c. c \<noteq> CHR ''='') (drop (i + 1) name)))
                        else None)"
        using "1.IH" [OF True ne] True by simp
      finally show ?thesis using d ne by auto
    qed
  qed
qed


lemma split_name:
  assumes "name \<noteq> []" and "hd name \<noteq> CHR ''=''"
  shows "(case eqIndex name 1 of None \<Rightarrow> name | Some i \<Rightarrow> take i name)
           = takeWhile (\<lambda>c. c \<noteq> CHR ''='') name"
    and "(eqIndex name 1 = None) = (CHR ''='' \<notin> set name)"
    and "(case eqIndex name 1 of None \<Rightarrow> [] | Some i \<Rightarrow> drop (i + 1) name)
           = tl (dropWhile (\<lambda>c. c \<noteq> CHR ''='') name)"
proof -
  obtain n0 ns where name: "name = n0 # ns" and n0: "n0 \<noteq> CHR ''=''"
    using assms by (cases name) auto
  let ?P = "\<lambda>c. c \<noteq> CHR ''=''"
  have e: "eqIndex (n0 # ns) (Suc 0) =
             (if CHR ''='' \<in> set ns then Some (Suc (length (takeWhile ?P ns))) else None)"
    using eqIndex_takeWhile [of 1 "n0 # ns"] by simp
  have "(case eqIndex name 1 of None \<Rightarrow> name | Some i \<Rightarrow> take i name) = takeWhile ?P name
       \<and> (eqIndex name 1 = None) = (CHR ''='' \<notin> set name)
       \<and> (case eqIndex name 1 of None \<Rightarrow> [] | Some i \<Rightarrow> drop (i + 1) name)
           = tl (dropWhile ?P name)"
  proof (cases "CHR ''='' \<in> set ns")
    case False
    then have tw: "takeWhile ?P ns = ns" and dw: "dropWhile ?P ns = []"
      by auto
    show ?thesis
      unfolding name using False n0 by (simp add: e tw dw)
  next
    case True
    have t: "take (length (takeWhile ?P ns)) ns = takeWhile ?P ns"
      by (rule takeWhile_eq_take [symmetric])
    have d: "drop (length (takeWhile ?P ns)) ns = dropWhile ?P ns"
      by (rule dropWhile_eq_drop [symmetric])
    have dt: "drop (Suc (length (takeWhile ?P ns))) ns = tl (dropWhile ?P ns)"
      using d by (metis drop_Suc drop_tl)
    show ?thesis
      unfolding name using True n0 by (simp add: e t dt)
  qed
  then show "(case eqIndex name 1 of None \<Rightarrow> name | Some i \<Rightarrow> take i name) = takeWhile ?P name"
    and "(eqIndex name 1 = None) = (CHR ''='' \<notin> set name)"
    and "(case eqIndex name 1 of None \<Rightarrow> [] | Some i \<Rightarrow> drop (i + 1) name)
           = tl (dropWhile ?P name)"
    by blast+
qed

lemma flag_value_eq:
  "flag_value s =
     (if CHR ''='' \<in> set (flag_body s)
      then Some (tl (dropWhile (\<lambda>c. c \<noteq> CHR ''='') (flag_body s)))
      else None)"
proof (cases "CHR ''='' \<in> set (flag_body s)")
  case True
  then have "dropWhile (\<lambda>c. c \<noteq> CHR ''='') (flag_body s) \<noteq> []"
    by (auto simp: dropWhile_eq_Nil_conv)
  with True show ?thesis
    by (cases "dropWhile (\<lambda>c. c \<noteq> CHR ''='') (flag_body s)") (simp_all add: flag_value_def)
next
  case False
  then have d: "dropWhile (\<lambda>c. c \<noteq> CHR ''='') (flag_body s) = []" by auto
  show ?thesis using False by (simp add: flag_value_def d)
qed

subsection \<open>One call of parseOne\<close>

lemma flag_shape:
  assumes "\<not> (length s < 2 \<or> s ! 0 \<noteq> CHR ''-'')"
      and "\<not> (s ! 1 = CHR ''-'' \<and> length s = 2)"
  shows "drop (if s ! 1 = CHR ''-'' then 2 else 1) s = flag_body s"
    and "flag_body s \<noteq> []"
    and "(length (flag_body s) = 0 \<or> flag_body s ! 0 = CHR ''-'' \<or> flag_body s ! 0 = CHR ''='')
           = (take 1 (flag_body s) = ''-'' \<or> take 1 (flag_body s) = ''='')"
    and "\<not> (length s < 2 \<or> take 1 s \<noteq> ''-'')" and "s \<noteq> ''--''"
proof -
  obtain c1 cs where s: "s = CHR ''-'' # c1 # cs"
    using assms(1) by (cases s; cases "tl s") auto
  show "drop (if s ! 1 = CHR ''-'' then 2 else 1) s = flag_body s"
    using s by (simp add: flag_body_def)
  show ne: "flag_body s \<noteq> []"
    using s assms(2) by (auto simp: flag_body_def)
  then obtain b0 bs where b: "flag_body s = b0 # bs" by (cases "flag_body s") auto
  show "(length (flag_body s) = 0 \<or> flag_body s ! 0 = CHR ''-'' \<or> flag_body s ! 0 = CHR ''='')
           = (take 1 (flag_body s) = ''-'' \<or> take 1 (flag_body s) = ''='')"
    by (simp add: b)
  show "\<not> (length s < 2 \<or> take 1 s \<noteq> ''-'')" using s by simp
  show "s \<noteq> ''--''" using s assms(2) by auto
qed

lemma classify_NonFlag:
  "(length s < 2 \<or> s ! 0 \<noteq> CHR ''-'') = (classify s = NonFlag)"
  by (cases s) (auto simp: classify_def split: option.splits)


lemma parseOne_flag:
  assumes a: "args f = s # rest"
      and s1: "\<not> (length s < 2 \<or> s ! 0 \<noteq> CHR ''-'')"
      and s2: "\<not> (s ! 1 = CHR ''-'' \<and> length s = 2)"
      and ok: "\<not> (take 1 (flag_body s) = ''-'' \<or> take 1 (flag_body s) = ''='')"
  shows "parseOne f =
           (case formal f (flag_name s) of
              None \<Rightarrow>
                if flag_name s = ''help'' \<or> flag_name s = ''h''
                then ((False, Some ErrHelp), usage (f\<lparr>args := rest\<rparr>))
                else failf (f\<lparr>args := rest\<rparr>) (FlagNotDefined (flag_name s))
            | Some _ \<Rightarrow>
                (case flag_value s of
                   None \<Rightarrow>
                     ((True, None),
                      f\<lparr>args := rest, boolVar := (boolVar f)(flag_name s := True),
                        actual := insert (flag_name s) (actual f)\<rparr>)
                 | Some v \<Rightarrow>
                     (case ParseBool v of
                        None \<Rightarrow> failf (f\<lparr>args := rest\<rparr>) (InvalidBooleanValue v (flag_name s))
                      | Some b \<Rightarrow>
                          ((True, None),
                           f\<lparr>args := rest, boolVar := (boolVar f)(flag_name s := b),
                             actual := insert (flag_name s) (actual f)\<rparr>))))"
    (is "_ = ?rhs")
proof -
  note sh = flag_shape [OF s1 s2]
  let ?name = "flag_body s"
  have ne: "?name \<noteq> []" by (rule sh(2))
  have hd: "hd ?name \<noteq> CHR ''=''"
    using ok ne by (cases "flag_body s") auto
  note sp = split_name [OF ne hd]
  have nm: "(case eqIndex ?name 1 of None \<Rightarrow> ?name | Some i \<Rightarrow> take i ?name) = flag_name s"
    using sp(1) by (simp add: flag_name_def)
  have hv: "(eqIndex ?name 1 \<noteq> None) = (CHR ''='' \<in> set ?name)"
    using sp(2) by simp
  have bad: "\<not> (length ?name = 0 \<or> ?name ! 0 = CHR ''-'' \<or> ?name ! 0 = CHR ''='')"
    using sh(3) ok by simp
  have "parseOne f =
          (let f1 = f\<lparr>args := rest\<rparr>;
               split = eqIndex ?name 1;
               hasValue = (split \<noteq> None);
               val = (case split of None \<Rightarrow> [] | Some i \<Rightarrow> drop (i + 1) ?name);
               name1 = (case split of None \<Rightarrow> ?name | Some i \<Rightarrow> take i ?name)
           in (case formal f1 name1 of
                 None \<Rightarrow>
                   if name1 = ''help'' \<or> name1 = ''h''
                   then ((False, Some ErrHelp), usage f1)
                   else failf f1 (FlagNotDefined name1)
               | Some _ \<Rightarrow>
                   if hasValue
                   then (case ParseBool val of
                           None \<Rightarrow> failf f1 (InvalidBooleanValue val name1)
                         | Some b \<Rightarrow>
                             ((True, None),
                              f1\<lparr>boolVar := (boolVar f1)(name1 := b),
                                 actual := insert name1 (actual f1)\<rparr>))
                   else ((True, None),
                         f1\<lparr>boolVar := (boolVar f1)(name1 := True),
                            actual := insert name1 (actual f1)\<rparr>)))"
    unfolding parseOne_def a list.case
    using s1 s2 bad by (simp only: if_False Let_def sh(1))
  also have "\<dots> =
          (case formal f (flag_name s) of
             None \<Rightarrow>
               if flag_name s = ''help'' \<or> flag_name s = ''h''
               then ((False, Some ErrHelp), usage (f\<lparr>args := rest\<rparr>))
               else failf (f\<lparr>args := rest\<rparr>) (FlagNotDefined (flag_name s))
           | Some _ \<Rightarrow>
               if CHR ''='' \<in> set ?name
               then (case ParseBool (tl (dropWhile (\<lambda>c. c \<noteq> CHR ''='') ?name)) of
                       None \<Rightarrow>
                         failf (f\<lparr>args := rest\<rparr>)
                           (InvalidBooleanValue (tl (dropWhile (\<lambda>c. c \<noteq> CHR ''='') ?name))
                              (flag_name s))
                     | Some b \<Rightarrow>
                         ((True, None),
                          f\<lparr>args := rest, boolVar := (boolVar f)(flag_name s := b),
                            actual := insert (flag_name s) (actual f)\<rparr>))
               else ((True, None),
                     f\<lparr>args := rest, boolVar := (boolVar f)(flag_name s := True),
                       actual := insert (flag_name s) (actual f)\<rparr>))"
    unfolding Let_def nm hv sp(3) by (simp split: option.splits)
  also have "\<dots> = ?rhs"
    by (simp add: flag_value_eq split: option.splits)
  finally show ?thesis .
qed


lemma parseOne_classify:
  assumes a: "args f = s # rest" and fm: "formal f = [''version'' \<mapsto> u]"
  shows "case classify s of
           NonFlag \<Rightarrow> parseOne f = ((False, None), f)
         | Terminator \<Rightarrow> parseOne f = ((False, None), f\<lparr>args := rest\<rparr>)
         | SetVersion b \<Rightarrow>
             parseOne f =
               ((True, None),
                f\<lparr>args := rest, boolVar := (boolVar f)(''version'' := b),
                  actual := insert ''version'' (actual f)\<rparr>)
         | Help \<Rightarrow> parseOne f = ((False, Some ErrHelp), usage (f\<lparr>args := rest\<rparr>))
         | Rejected d \<Rightarrow>
             (\<exists>f0. parseOne f = failf f0 d \<and> flag_output f0 = flag_output f)"
proof (cases "length s < 2 \<or> s ! 0 \<noteq> CHR ''-''")
  case True
  then have "classify s = NonFlag" by (simp add: classify_NonFlag)
  moreover have "parseOne f = ((False, None), f)"
    using True by (simp add: parseOne_def a)
  ultimately show ?thesis by simp
next
  case s1: False
  show ?thesis
  proof (cases "s ! 1 = CHR ''-'' \<and> length s = 2")
    case True
    then have s: "s = ''--''"
      using s1 by (cases s; cases "tl s") auto
    have "classify s = Terminator" by (simp add: s classify_def)
    moreover have "parseOne f = ((False, None), f\<lparr>args := rest\<rparr>)"
      by (simp add: parseOne_def a s)
    ultimately show ?thesis by simp
  next
    case s2: False
    note sh = flag_shape [OF s1 s2]
    show ?thesis
    proof (cases "take 1 (flag_body s) = ''-'' \<or> take 1 (flag_body s) = ''=''")
      case True
      then have "classify s = Rejected (BadFlagSyntax s)"
        using sh(4,5) by (simp add: classify_def)
      moreover have "parseOne f = failf f (BadFlagSyntax s)"
        unfolding parseOne_def a list.case
        using s1 s2 True sh(3) by (simp only: if_False if_True Let_def sh(1))
      ultimately show ?thesis by auto
    next
      case ok: False
      note p = parseOne_flag [OF a s1 s2 ok]
      have c: "classify s =
                 (if flag_name s = ''version''
                  then (case flag_value s of
                          None \<Rightarrow> SetVersion True
                        | Some v \<Rightarrow>
                            (case ParseBool v of
                               Some b \<Rightarrow> SetVersion b
                             | None \<Rightarrow> Rejected (InvalidBooleanValue v ''version'')))
                  else if flag_name s = ''help'' \<or> flag_name s = ''h'' then Help
                  else Rejected (FlagNotDefined (flag_name s)))"
        using sh(4,5) ok by (simp add: classify_def)
      show ?thesis
      proof (cases "flag_name s = ''version''")
        case True
        then show ?thesis
          unfolding p c by (auto simp: fm split: option.splits)
      next
        case False
        then show ?thesis
          unfolding p c by (auto simp: fm split: option.splits)
      qed
    qed
  qed
qed

subsection \<open>The loop and the entry point\<close>

lemma parseLoop_read_args:
  assumes "formal f = [''version'' \<mapsto> u]" and "args f = as"
  shows "case read_args (boolVar f ''version'') as of
           Accepted b \<Rightarrow>
             (\<exists>f'. parseLoop f = Inr f' \<and> boolVar f' ''version'' = b
                   \<and> flag_output f' = flag_output f)
         | HelpRequested \<Rightarrow>
             (\<exists>f'. parseLoop f = Inl (0, f') \<and> flag_output f' = flag_output f @ [Usage])
         | Refused d \<Rightarrow>
             (\<exists>f'. parseLoop f = Inl (2, f') \<and> flag_output f' = flag_output f @ [d, Usage])"
  using assms
proof (induction as arbitrary: f)
  case Nil
  then have "parseOne f = ((False, None), f)" by (simp add: parseOne_def)
  then have "parseLoop f = Inr f" by (subst parseLoop.simps) simp
  then show ?case by simp
next
  case (Cons s rest)
  note c = parseOne_classify [OF Cons.prems(2) Cons.prems(1)]
  show ?case
  proof (cases "classify s")
    case NonFlag
    with c have "parseOne f = ((False, None), f)" by simp
    then have "parseLoop f = Inr f" by (subst parseLoop.simps) simp
    with NonFlag show ?thesis by simp
  next
    case Terminator
    with c have "parseOne f = ((False, None), f\<lparr>args := rest\<rparr>)" by simp
    then have "parseLoop f = Inr (f\<lparr>args := rest\<rparr>)" by (subst parseLoop.simps) simp
    with Terminator show ?thesis by simp
  next
    case (SetVersion b)
    let ?f' = "f\<lparr>args := rest, boolVar := (boolVar f)(''version'' := b),
                 actual := insert ''version'' (actual f)\<rparr>"
    from c SetVersion have "parseOne f = ((True, None), ?f')" by simp
    then have l: "parseLoop f = parseLoop ?f'" by (subst parseLoop.simps) simp
    have fe: "formal ?f' = formal f" by simp
    have "formal ?f' = [''version'' \<mapsto> u]"
      unfolding fe by (rule Cons.prems(1))
    moreover have "args ?f' = rest" by simp
    ultimately have "case read_args (boolVar ?f' ''version'') rest of
           Accepted b \<Rightarrow>
             (\<exists>f'. parseLoop ?f' = Inr f' \<and> boolVar f' ''version'' = b
                   \<and> flag_output f' = flag_output ?f')
         | HelpRequested \<Rightarrow>
             (\<exists>f'. parseLoop ?f' = Inl (0, f') \<and> flag_output f' = flag_output ?f' @ [Usage])
         | Refused d \<Rightarrow>
             (\<exists>f'. parseLoop ?f' = Inl (2, f') \<and> flag_output f' = flag_output ?f' @ [d, Usage])"
      by (rule Cons.IH)
    then show ?thesis
      unfolding l using SetVersion by (cases "read_args b rest") simp_all
  next
    case Help
    with c have "parseOne f = ((False, Some ErrHelp), usage (f\<lparr>args := rest\<rparr>))" by simp
    then have "parseLoop f = Inl (0, usage (f\<lparr>args := rest\<rparr>))"
      by (subst parseLoop.simps) simp
    with Help show ?thesis by (simp add: usage_def)
  next
    case (Rejected d)
    with c obtain f0 where p: "parseOne f = failf f0 d" and o: "flag_output f0 = flag_output f"
      by auto
    have "parseLoop f = Inl (2, f0\<lparr>flag_output := flag_output f0 @ [d, Usage]\<rparr>)"
      by (subst parseLoop.simps) (simp add: p failf_def)
    with Rejected o show ?thesis by simp
  qed
qed

lemma main_read_args:
  "main injected arguments =
     (case read_args False arguments of
        Accepted showVersion \<Rightarrow>
          if showVersion
          then \<lparr>stdout = Println (version injected), stderr = [], hello_calls = [],
                exit_status = 0\<rparr>
          else \<lparr>stdout = Println (Hello ''World''), stderr = [], hello_calls = [''World''],
                exit_status = 0\<rparr>
      | HelpRequested \<Rightarrow>
          \<lparr>stdout = [], stderr = [Usage], hello_calls = [], exit_status = 0\<rparr>
      | Refused d \<Rightarrow>
          \<lparr>stdout = [], stderr = [d, Usage], hello_calls = [], exit_status = 2\<rparr>)"
proof -
  let ?f0 = "(Bool_flag CommandLine ''version'' False ''show version'')\<lparr>args := arguments\<rparr>"
  have fm: "formal ?f0 = [''version'' \<mapsto> ''show version'']"
    by (simp add: Bool_flag_def CommandLine_def)
  have ar: "args ?f0 = arguments" by simp
  have bv: "boolVar ?f0 ''version'' = False" by (simp add: Bool_flag_def)
  have out: "flag_output ?f0 = []" by (simp add: Bool_flag_def CommandLine_def)
  note r = parseLoop_read_args [OF fm ar, unfolded bv out]
  show ?thesis
  proof (cases "read_args False arguments")
    case (Accepted b)
    with r obtain f' where "parseLoop ?f0 = Inr f'" "boolVar f' ''version'' = b" "flag_output f' = []"
      by auto
    with Accepted show ?thesis by (simp add: main_def Parse_def)
  next
    case HelpRequested
    with r obtain f' where "parseLoop ?f0 = Inl (0, f')" "flag_output f' = [Usage]"
      by auto
    with HelpRequested show ?thesis by (simp add: main_def Parse_def)
  next
    case (Refused d)
    with r obtain f' where "parseLoop ?f0 = Inl (2, f')" "flag_output f' = [d, Usage]"
      by auto
    with Refused show ?thesis by (simp add: main_def Parse_def)
  qed
qed

subsection \<open>Command lines that start with version flags\<close>

text \<open>
  The well-formed version flags, spelled out: \<open>-version\<close> and \<open>--version\<close> turn the
  switch on, and \<open>-version=v\<close> and \<open>--version=v\<close> set it to the boolean that
  \<open>strconv.ParseBool\<close> reads from \<open>v\<close>.
\<close>

lemma classify_version_forms:
  "classify ''-version'' = SetVersion True"
  "classify ''--version'' = SetVersion True"
  "classify (''-version='' @ v) =
     (case ParseBool v of Some b \<Rightarrow> SetVersion b
      | None \<Rightarrow> Rejected (InvalidBooleanValue v ''version''))"
  "classify (''--version='' @ v) =
     (case ParseBool v of Some b \<Rightarrow> SetVersion b
      | None \<Rightarrow> Rejected (InvalidBooleanValue v ''version''))"
  by (simp_all add: classify_def flag_body_def flag_name_def flag_value_def)

lemma classify_SetVersion_iff:
  "(classify s = SetVersion b) =
     ((b \<and> (s = ''-version'' \<or> s = ''--version''))
      \<or> (\<exists>v. ParseBool v = Some b \<and> (s = ''-version='' @ v \<or> s = ''--version='' @ v)))"
proof
  assume c: "classify s = SetVersion b"
  let ?P = "\<lambda>c. c \<noteq> CHR ''=''"
  have fl: "\<not> (length s < 2 \<or> take 1 s \<noteq> ''-'')"
    using c by (auto simp: classify_def split: if_splits)
  have nm: "flag_name s = ''version''"
    using c by (auto simp: classify_def split: if_splits option.splits)
  have s: "s = (if take 2 s = ''--'' then ''--'' else ''-'') @ flag_body s"
  proof (cases "take 2 s = ''--''")
    case True
    have "s = take 2 s @ drop 2 s" by simp
    with True show ?thesis by (simp add: flag_body_def)
  next
    case False
    have "s = take 1 s @ drop 1 s" by simp
    with False fl show ?thesis by (simp add: flag_body_def)
  qed
  have body: "flag_body s = ''version'' @ dropWhile ?P (flag_body s)"
  proof -
    have "flag_body s = takeWhile ?P (flag_body s) @ dropWhile ?P (flag_body s)"
      by (rule takeWhile_dropWhile_id [symmetric])
    also have "takeWhile ?P (flag_body s) = ''version''"
      using nm by (simp only: flag_name_def)
    finally show ?thesis .
  qed
  have v: "(case flag_value s of None \<Rightarrow> SetVersion True
            | Some v \<Rightarrow> (case ParseBool v of Some b \<Rightarrow> SetVersion b
                         | None \<Rightarrow> Rejected (InvalidBooleanValue v ''version''))) = SetVersion b"
    using c nm by (auto simp: classify_def split: if_splits)
  show "(b \<and> (s = ''-version'' \<or> s = ''--version''))
      \<or> (\<exists>v. ParseBool v = Some b \<and> (s = ''-version='' @ v \<or> s = ''--version='' @ v))"
  proof (cases "dropWhile ?P (flag_body s)")
    case Nil
    have "flag_value s = None" by (simp add: flag_value_def Nil)
    with v have b by simp
    moreover have "flag_body s = ''version''" by (subst body) (simp add: Nil)
    ultimately show ?thesis using s by (auto split: if_splits)
  next
    case (Cons e w)
    have e: "e = CHR ''=''"
      using hd_dropWhile [of ?P "flag_body s"] by (simp add: Cons)
    have "flag_value s = Some w" by (simp add: flag_value_def Cons)
    with v have pb: "ParseBool w = Some b" by (auto split: option.splits)
    have "flag_body s = ''version='' @ w" by (subst body) (simp add: Cons e)
    with s have "s = ''-version='' @ w \<or> s = ''--version='' @ w"
      by (auto split: if_splits)
    with pb show ?thesis by blast
  qed
next
  assume "(b \<and> (s = ''-version'' \<or> s = ''--version''))
      \<or> (\<exists>v. ParseBool v = Some b \<and> (s = ''-version='' @ v \<or> s = ''--version='' @ v))"
  then consider "b \<and> s = ''-version''" | "b \<and> s = ''--version''"
    | v where "ParseBool v = Some b" and "s = ''-version='' @ v"
    | v where "ParseBool v = Some b" and "s = ''--version='' @ v"
    by blast
  then show "classify s = SetVersion b"
  proof cases
    case 1
    then show ?thesis by (simp only: classify_version_forms(1))
  next
    case 2
    then show ?thesis by (simp only: classify_version_forms(2))
  next
    case 3
    show ?thesis unfolding 3(2) classify_version_forms(3) by (simp add: 3(1))
  next
    case 4
    show ?thesis unfolding 4(2) classify_version_forms(4) by (simp add: 4(1))
  qed
qed

lemma read_args_version_prefix:
  "list_all is_version_flag vs \<Longrightarrow> vs \<noteq> [] \<Longrightarrow>
   read_args b (vs @ rest) = read_args (classify (last vs) = SetVersion True) rest"
proof (induction vs arbitrary: b)
  case Nil
  then show ?case by simp
next
  case (Cons v vs)
  then obtain x where x: "classify v = SetVersion x"
    by (auto simp: is_version_flag_def split: arg_kind.splits)
  show ?case
  proof (cases "vs = []")
    case True
    then show ?thesis using x by simp
  next
    case False
    then show ?thesis using Cons x by simp
  qed
qed



lemmas classify_eval =
  classify_def flag_body_def flag_name_def flag_value_def ParseBool_def is_version_flag_def

section \<open>Properties of the entry point\<close>

text \<open>
  C2. With the version switch set, the entry point prints the build-time version, as the one
  line that \<open>fmt.Println\<close> writes (the version followed by a newline), and nothing else on
  standard output; \<open>Hello\<close> is not called, nothing is written to standard error, and the
  exit status is 0. The switch is set when the command line starts with one or more
  well-formed version flags of which the last turns the switch on, and then ends or goes on
  with an argument that is not a flag or with \<open>--\<close>.
\<close>

theorem main_version_switch:
  assumes "list_all is_version_flag vs" and "vs \<noteq> []"
      and "classify (last vs) = SetVersion True"
      and "rest = [] \<or> classify (hd rest) = NonFlag \<or> classify (hd rest) = Terminator"
  shows "main injected (vs @ rest) =
           \<lparr>stdout = version injected @ [CHR 0x0A], stderr = [], hello_calls = [],
            exit_status = 0\<rparr>"
proof -
  have "read_args False (vs @ rest) = read_args True rest"
    using read_args_version_prefix [OF assms(1,2)] assms(3) by simp
  also have "\<dots> = Accepted True"
    using assms(4) by (cases rest) auto
  finally show ?thesis by (simp add: main_read_args Println_def)
qed

theorem main_version_switch_witness:
  "main (Some ''v1.2.3'') [''--version''] =
     \<lparr>stdout = ''v1.2.3'' @ [CHR 0x0A], stderr = [], hello_calls = [], exit_status = 0\<rparr>
   \<and> main None [''-version=false'', ''-version'', ''extra''] =
     \<lparr>stdout = ''dev'' @ [CHR 0x0A], stderr = [], hello_calls = [], exit_status = 0\<rparr>"
proof -
  have a: "main (Some ''v1.2.3'') ([''--version''] @ []) =
     \<lparr>stdout = version (Some ''v1.2.3'') @ [CHR 0x0A], stderr = [], hello_calls = [], exit_status = 0\<rparr>"
    by (rule main_version_switch) (simp_all add: classify_eval)
  have b: "main None ([''-version=false'', ''-version''] @ [''extra'']) =
     \<lparr>stdout = version None @ [CHR 0x0A], stderr = [], hello_calls = [], exit_status = 0\<rparr>"
    by (rule main_version_switch) (simp_all add: classify_eval)
  from a b show ?thesis by (simp add: version_def)
qed

text \<open>
  C3. With no command-line arguments the entry point calls \<open>Hello\<close> once, with the literal
  \<open>"World"\<close>, prints \<open>Hello, World!\<close> as one line on standard output, and ends with exit
  status 0.
\<close>

theorem main_no_arguments:
  "main injected [] =
     \<lparr>stdout = ''Hello, World!'' @ [CHR 0x0A], stderr = [], hello_calls = [''World''],
      exit_status = 0\<rparr>"
  by (simp add: main_read_args Println_def Hello_def)

theorem main_no_arguments_witness:
  "stdout (main None []) = ''Hello, World!'' @ [CHR 0x0A] \<and> exit_status (main None []) = 0
   \<and> hello_calls (main None []) = [''World'']"
  using main_no_arguments [of None] by simp

text \<open>
  C8. When the build injects no version, the version is the placeholder \<open>dev\<close>, and that is
  what the version switch prints.
\<close>

theorem version_default:
  assumes "list_all is_version_flag vs" and "vs \<noteq> []"
      and "classify (last vs) = SetVersion True"
  shows "version None = ''dev'' \<and> stdout (main None vs) = ''dev'' @ [CHR 0x0A]"
proof -
  have "read_args False vs = Accepted True"
    using read_args_version_prefix [OF assms(1,2), of False "[]"] assms(3) by simp
  then show ?thesis by (simp add: main_read_args Println_def version_def)
qed

theorem version_default_witness:
  "version None = ''dev'' \<and> stdout (main None [''-version'']) = ''dev'' @ [CHR 0x0A]"
  by (rule version_default) (simp_all add: classify_eval)

text \<open>
  C9. Arguments that are not flags are accepted without a message: when the first argument
  has fewer than two bytes or does not start with \<open>-\<close>, whatever follows it, the entry
  point prints \<open>Hello, World!\<close>, writes nothing to standard error and ends with exit
  status 0.
\<close>

theorem positional_arguments_accepted:
  assumes "length w < 2 \<or> take 1 w \<noteq> ''-''"
  shows "main injected (w # rest) =
           \<lparr>stdout = ''Hello, World!'' @ [CHR 0x0A], stderr = [], hello_calls = [''World''],
            exit_status = 0\<rparr>"
proof -
  have "classify w = NonFlag" using assms by (simp add: classify_def)
  then show ?thesis by (simp add: main_read_args Println_def Hello_def)
qed

theorem positional_arguments_accepted_witness:
  "main None [''Gopher'', ''and'', ''friends''] =
     \<lparr>stdout = ''Hello, World!'' @ [CHR 0x0A], stderr = [], hello_calls = [''World''],
      exit_status = 0\<rparr>"
  by (rule positional_arguments_accepted) simp




end
